theory Spec2Isabelle
  imports Complex_Main
begin

section \<open>Datasets and Python strings\<close>

text \<open>
  A pydicom \<open>Dataset\<close> is a bag of optional attributes. Only the attributes that
  \<open>PACS_new.py\<close> and \<open>backend_new.py\<close> read or write are kept; an attribute that is
  absent (\<open>hasattr\<close> false, \<open>'X' in ds\<close> false) is \<open>None\<close>.
\<close>

record dataset =
  QueryRetrieveLevel :: "string option"
  PatientID :: "string option"
  PatientName :: "string option"
  SOPInstanceUID :: "string option"
  SOPClassUID :: "string option"

definition Dataset :: dataset where
  "Dataset = \<lparr>QueryRetrieveLevel = None, PatientID = None, PatientName = None,
     SOPInstanceUID = None, SOPClassUID = None\<rparr>"

datatype py_error = AttributeError | OSError

text \<open>How a generator (or a call) ends: it returns, or an exception leaves it.\<close>

datatype ending = Returned | Raised py_error

text \<open>
  \<open>str.strip()\<close> with no argument removes the characters for which \<open>str.isspace\<close>
  holds from both ends. Characters are code points below 256 here.
\<close>

definition isspace :: "char \<Rightarrow> bool" where
  "isspace c = ((of_char c :: nat) \<in> {9, 10, 11, 12, 13, 28, 29, 30, 31, 32, 133, 160})"

definition strip :: "string \<Rightarrow> string" where
  "strip s = rev (dropWhile isspace (rev (dropWhile isspace s)))"

section \<open>The PACS server (\<open>PACS_new.py\<close>)\<close>

subsection \<open>C-STORE: \<open>handle_store\<close>\<close>

text \<open>
  The store event carries the dataset. \<open>ds.save_as\<close> writes a file; whether the write
  succeeds is decided by the file system, given here as \<open>writable\<close> on the file name.
  A failed write raises \<open>OSError\<close>, and the source has no handler for it. The state is
  the global list \<open>stored_datasets\<close> together with the files written so far.
\<close>

record pacs_state =
  stored_datasets :: "dataset list"
  saved_files :: "(string \<times> dataset) list"

definition handle_store ::
  "(string \<Rightarrow> bool) \<Rightarrow> dataset \<Rightarrow> pacs_state \<Rightarrow> (py_error + int) \<times> pacs_state" where
  "handle_store writable ds st =
     (case SOPInstanceUID ds of
        None \<Rightarrow> (Inl AttributeError, st)
      | Some uid \<Rightarrow>
          (let filename = uid @ ''.dcm'' in
           if writable filename
           then (Inr 0x0000,
                 st\<lparr>stored_datasets := stored_datasets st @ [ds],
                    saved_files := saved_files st @ [(filename, ds)]\<rparr>)
           else (Inl OSError, st)))"

text \<open>A sequence of store events, each run on the state the previous one left.\<close>

fun store_all :: "(string \<Rightarrow> bool) \<Rightarrow> dataset list \<Rightarrow> pacs_state \<Rightarrow> pacs_state" where
  "store_all writable [] st = st"
| "store_all writable (ds # dss) st = store_all writable dss (snd (handle_store writable ds st))"

subsection \<open>C-FIND: \<open>handle_find\<close>\<close>

text \<open>
  The first loop of \<open>handle_find\<close>, with the set \<open>patient_ids_seen\<close> threaded through.
  \<open>q\<close> is \<open>ds.PatientID\<close> of the query.
\<close>

fun find_matches :: "string \<Rightarrow> string set \<Rightarrow> dataset list \<Rightarrow> dataset list" where
  "find_matches q seen [] = []"
| "find_matches q seen (inst # rest) =
     (case PatientID inst of
        None \<Rightarrow> find_matches q seen rest
      | Some pid \<Rightarrow>
          if strip pid = strip q \<and> pid \<notin> seen
          then Dataset\<lparr>QueryRetrieveLevel := Some ''PATIENT'', PatientID := Some pid,
                 PatientName := PatientName inst\<rparr>
               # find_matches q (insert pid seen) rest
          else find_matches q seen rest)"

text \<open>
  The second loop. The generator is resumed once per match, and \<open>event.is_cancelled\<close> is
  read at each resumption: \<open>cancelled k\<close> is what the \<open>k\<close>-th read gives.
\<close>

type_synonym status_yield = "int \<times> dataset option"

fun emit_matches :: "(nat \<Rightarrow> bool) \<Rightarrow> nat \<Rightarrow> dataset list \<Rightarrow> status_yield list" where
  "emit_matches cancelled k [] = []"
| "emit_matches cancelled k (m # ms) =
     (if cancelled k then [(0xFE00, None)]
      else (0xFF00, Some m) # emit_matches cancelled (Suc k) ms)"

definition handle_find ::
  "(nat \<Rightarrow> bool) \<Rightarrow> dataset list \<Rightarrow> dataset \<Rightarrow> status_yield list \<times> ending" where
  "handle_find cancelled stored ds =
     (case QueryRetrieveLevel ds of
        None \<Rightarrow> ([], Raised AttributeError)
      | Some level \<Rightarrow>
          (let matches =
             (case PatientID ds of
                None \<Rightarrow> []
              | Some q \<Rightarrow>
                  if level = ''PATIENT'' \<and> q \<noteq> [] then find_matches q {} stored else [])
           in (emit_matches cancelled 0 matches, Returned)))"

text \<open>The match results among the yields of a find: the pending responses.\<close>

definition match_results :: "status_yield list \<Rightarrow> dataset list" where
  "match_results ys = concat (map (\<lambda>(s, d). case d of None \<Rightarrow> [] | Some m \<Rightarrow> [m]) ys)"

subsection \<open>C-MOVE: \<open>handle_move\<close>\<close>

text \<open>
  The abstract syntaxes that the source names, and any other one by its UID (the
  \<open>SOPClassUID\<close> of an instance, an entry of pynetdicom's table
  \<open>StoragePresentationContexts\<close>). That table belongs to the toolkit and is a parameter
  of \<open>handle_move\<close> below; \<open>add_requested_context\<close> appends to the list of an \<open>AE\<close>.
\<close>

datatype abstract_syntax =
  CTImageStorage | MRImageStorage | ComputedRadiographyImageStorage | SyntaxUID string

definition KNOWN_AE_DESTINATIONS :: "(string \<times> (string \<times> int)) list" where
  "KNOWN_AE_DESTINATIONS =
     [(''TESTSCU'', (''127.0.0.1'', 11113)), (''TESTSCU2'', (''127.0.0.1'', 11119))]"

text \<open>
  What the generator yields: the destination triple, the number of datasets to send, and
  the pairs \<open>(status, None)\<close>.
\<close>

datatype move_yield =
  Destination string int string "abstract_syntax list"
| Count nat
| Status int "dataset option"

text \<open>
  What the generator does to the outbound transport: \<open>storage_ae.associate\<close> with its
  arguments and the requested contexts of \<open>storage_ae\<close>, \<open>assoc.send_c_store\<close>,
  \<open>assoc.release\<close>.
\<close>

datatype effect =
  Associate string int string "abstract_syntax list"
| SendCStore dataset
| Release

text \<open>
  A run of the generator, driven until it ends, is the sequence of its steps in the order
  in which they happen (a value yielded, or a call of the transport) and the way it ends.
\<close>

datatype step = Yield move_yield | Call effect

record move_run =
  trace :: "step list"
  ending :: ending

definition after :: "step list \<Rightarrow> move_run \<Rightarrow> move_run" where
  "after steps r = r\<lparr>trace := steps @ trace r\<rparr>"

text \<open>
  The answer of the transport to the \<open>k\<close>-th \<open>associate\<close>: the association is not
  established, or it is and \<open>send_c_store\<close> returns a status dataset, which is empty
  (\<open>None\<close>, falsy in Python) or carries \<open>Status\<close>. The calls of the toolkit are taken to
  return. \<open>is_cancelled k\<close> is \<open>event.is_cancelled\<close> as read at the top of the \<open>k\<close>-th
  iteration of the sending loop.
\<close>

datatype assoc = NotEstablished | Established "int option"

record transport =
  is_cancelled :: "nat \<Rightarrow> bool"
  associate :: "nat \<Rightarrow> assoc"

record move_event =
  event_identifier :: dataset
  move_destination :: string

definition storage_contexts :: "dataset \<Rightarrow> abstract_syntax list" where
  "storage_contexts inst =
     [CTImageStorage, MRImageStorage, ComputedRadiographyImageStorage]
     @ (case SOPClassUID inst of None \<Rightarrow> [] | Some uid \<Rightarrow> [SyntaxUID uid])"

text \<open>
  The sending loop over \<open>to_send\<close>. Both log lines after a send read
  \<open>inst.SOPInstanceUID\<close>, which raises when the attribute is absent. The branch for an
  association that is not established yields and falls through to the next iteration:
  the source has no \<open>return\<close> there.
\<close>

fun send_loop ::
  "transport \<Rightarrow> string \<Rightarrow> int \<Rightarrow> string \<Rightarrow> nat \<Rightarrow> dataset list \<Rightarrow> move_run" where
  "send_loop T addr port dest_ae k [] = \<lparr>trace = [], ending = Returned\<rparr>"
| "send_loop T addr port dest_ae k (inst # rest) =
     (if is_cancelled T k
      then \<lparr>trace = [Yield (Status 0xFE00 None)], ending = Returned\<rparr>
      else
        (let open_session = Call (Associate addr port dest_ae (storage_contexts inst)) in
         case associate T k of
           Established status \<Rightarrow>
             (case SOPInstanceUID inst of
                None \<Rightarrow>
                  \<lparr>trace = [open_session, Call (SendCStore inst), Call Release],
                   ending = Raised AttributeError\<rparr>
              | Some uid \<Rightarrow>
                  after [open_session, Call (SendCStore inst), Call Release,
                         if status = Some 0x0000 then Yield (Status 0xFF00 None)
                         else Yield (Status 0xB000 None)]
                    (send_loop T addr port dest_ae (Suc k) rest))
         | NotEstablished \<Rightarrow>
             after [open_session, Yield (Status 0xA801 None)]
               (send_loop T addr port dest_ae (Suc k) rest)))"

text \<open>The candidates: the first loop of \<open>handle_move\<close>, a filter in repository order.\<close>

definition to_send :: "dataset list \<Rightarrow> dataset \<Rightarrow> string \<Rightarrow> dataset list" where
  "to_send stored ds level =
     (case PatientID ds of
        None \<Rightarrow> []
      | Some q \<Rightarrow>
          if level = ''PATIENT''
          then filter (\<lambda>inst. case PatientID inst of None \<Rightarrow> False
                                | Some pid \<Rightarrow> strip pid = strip q) stored
          else [])"

definition handle_move ::
  "transport \<Rightarrow> abstract_syntax list \<Rightarrow> dataset list \<Rightarrow> move_event \<Rightarrow> move_run" where
  "handle_move T StoragePresentationContexts stored event =
     (let ds = event_identifier event; dest_ae = move_destination event in
      case map_of KNOWN_AE_DESTINATIONS dest_ae of
        None \<Rightarrow> \<lparr>trace = [Yield (Status 0xA801 None)], ending = Returned\<rparr>
      | Some (addr, port) \<Rightarrow>
          (let requested_contexts =
                 [CTImageStorage, MRImageStorage, ComputedRadiographyImageStorage]
                 @ take 50 StoragePresentationContexts;
               resolved = Destination addr port dest_ae requested_contexts
           in case QueryRetrieveLevel ds of
                None \<Rightarrow> \<lparr>trace = [Yield resolved], ending = Raised AttributeError\<rparr>
              | Some level \<Rightarrow>
                  (let cands = to_send stored ds level in
                   after [Yield resolved, Yield (Count (length cands))]
                     (send_loop T addr port dest_ae 0 cands))))"

text \<open>
  Readings of a trace: the values yielded, the sessions opened and the instances sent,
  each in order. \<open>item_outcome\<close> is the pair that an iteration of the loop yields for
  the answer the transport gave it.
\<close>

definition yields :: "move_run \<Rightarrow> move_yield list" where
  "yields r = concat (map (\<lambda>s. case s of Yield y \<Rightarrow> [y] | Call e \<Rightarrow> []) (trace r))"

definition effects :: "move_run \<Rightarrow> effect list" where
  "effects r = concat (map (\<lambda>s. case s of Yield y \<Rightarrow> [] | Call e \<Rightarrow> [e]) (trace r))"

definition opened_sessions :: "move_run \<Rightarrow> effect list" where
  "opened_sessions r =
     filter (\<lambda>e. case e of Associate a p d c \<Rightarrow> True | _ \<Rightarrow> False) (effects r)"

definition sent_instances :: "move_run \<Rightarrow> dataset list" where
  "sent_instances r =
     concat (map (\<lambda>e. case e of SendCStore inst \<Rightarrow> [inst] | _ \<Rightarrow> []) (effects r))"

definition item_outcome :: "assoc \<Rightarrow> move_yield" where
  "item_outcome a =
     (case a of
        NotEstablished \<Rightarrow> Status 0xA801 None
      | Established status \<Rightarrow>
          if status = Some 0x0000 then Status 0xFF00 None else Status 0xB000 None)"


section \<open>The landing-area completion detector (\<open>backend_new.py\<close>)\<close>

text \<open>
  \<open>wait_for_files\<close> reads the clock and the folder once per iteration. What it reads at
  iteration \<open>k\<close> is the observation \<open>obs k\<close>: \<open>elapsed\<close> is \<open>time.time() - start_time\<close> at
  the loop test, and \<open>listing\<close> is \<open>None\<close> when \<open>os.path.exists(folder)\<close> is false and the
  result of \<open>os.listdir(folder)\<close> otherwise, which is taken to succeed on a folder that
  exists. Only comparisons are made on the time, which is a real number here. Nothing is
  assumed of the clock: a run in which it never reaches the timeout and the count never
  settles does not return, and \<open>wait_loop\<close> is \<open>None\<close> on it.
\<close>

record observation =
  elapsed :: real
  listing :: "string list option"

record poll_state =
  stable_count :: int
  previous_count :: int
  current_files :: "string list"

definition endswith :: "string \<Rightarrow> string \<Rightarrow> bool" where
  "endswith fname suffix =
     (length suffix \<le> length fname \<and> drop (length fname - length suffix) fname = suffix)"

definition dcm_files :: "string list \<Rightarrow> string list" where
  "dcm_files names = filter (\<lambda>fname. endswith fname ''.dcm'') names"

text \<open>The body of the loop up to the test for \<open>break\<close>, on a folder that exists.\<close>

definition poll :: "string list \<Rightarrow> poll_state \<Rightarrow> poll_state" where
  "poll names s =
     (let files = dcm_files names; current_count = int (length files) in
      if current_count = previous_count s
      then s\<lparr>stable_count := stable_count s + 1, current_files := files\<rparr>
      else s\<lparr>stable_count := 0, previous_count := current_count, current_files := files\<rparr>)"

text \<open>
  The result carries, next to the returned list, the number of calls of \<open>time.sleep\<close>
  made before returning: the time for which the caller was blocked, in poll intervals.
\<close>

record wait_result =
  returned_files :: "string list"
  sleeps :: nat

partial_function (option) wait_loop ::
  "(nat \<Rightarrow> observation) \<Rightarrow> real \<Rightarrow> int \<Rightarrow> nat \<Rightarrow> poll_state \<Rightarrow> wait_result option" where
  "wait_loop obs timeout consecutive k s =
     (if elapsed (obs k) < timeout
      then (case listing (obs k) of
              None \<Rightarrow> wait_loop obs timeout consecutive (Suc k) s
            | Some names \<Rightarrow>
                (let s' = poll names s in
                 if stable_count s' \<ge> consecutive
                 then Some \<lparr>returned_files = current_files s', sleeps = k\<rparr>
                 else wait_loop obs timeout consecutive (Suc k) s'))
      else Some \<lparr>returned_files = current_files s, sleeps = k\<rparr>)"

declare wait_loop.simps [code]

definition wait_for_files :: "(nat \<Rightarrow> observation) \<Rightarrow> real \<Rightarrow> int \<Rightarrow> wait_result option" where
  "wait_for_files obs timeout consecutive =
     wait_loop obs timeout consecutive 0
       \<lparr>stable_count = 0, previous_count = - 1, current_files = []\<rparr>"

subsection \<open>The two stopping conditions, in the words of the specification\<close>

text \<open>
  \<open>observed obs k\<close> lists what the polls before the \<open>k\<close>-th found in the folder, the most
  recent first; a poll that found no folder observed nothing. \<open>unchanged_polls\<close> counts
  the most recent polls that each found as many items as the poll before it.
\<close>

fun observed :: "(nat \<Rightarrow> observation) \<Rightarrow> nat \<Rightarrow> string list list" where
  "observed obs 0 = []"
| "observed obs (Suc k) =
     (case listing (obs k) of
        None \<Rightarrow> observed obs k
      | Some names \<Rightarrow> dcm_files names # observed obs k)"

fun unchanged_polls :: "string list list \<Rightarrow> nat" where
  "unchanged_polls (a # b # rest) =
     (if length a = length b then Suc (unchanged_polls (b # rest)) else 0)"
| "unchanged_polls rest = 0"

definition last_seen :: "(nat \<Rightarrow> observation) \<Rightarrow> nat \<Rightarrow> string list" where
  "last_seen obs k = (case observed obs k of [] \<Rightarrow> [] | newest # earlier \<Rightarrow> newest)"

definition timed_out :: "(nat \<Rightarrow> observation) \<Rightarrow> real \<Rightarrow> nat \<Rightarrow> bool" where
  "timed_out obs timeout k = (timeout \<le> elapsed (obs k))"

definition stable_at :: "(nat \<Rightarrow> observation) \<Rightarrow> int \<Rightarrow> nat \<Rightarrow> bool" where
  "stable_at obs consecutive k =
     (listing (obs k) \<noteq> None \<and> consecutive \<le> int (unchanged_polls (observed obs (Suc k))))"

text \<open>
  The state of the loop when it reaches the test of iteration \<open>k\<close>, read off the
  observations made so far.
\<close>

definition state_at :: "(nat \<Rightarrow> observation) \<Rightarrow> nat \<Rightarrow> poll_state" where
  "state_at obs k =
     \<lparr>stable_count = int (unchanged_polls (observed obs k)),
      previous_count = (case observed obs k of [] \<Rightarrow> - 1 | newest # earlier \<Rightarrow> int (length newest)),
      current_files = last_seen obs k\<rparr>"

section \<open>The candidate set, in the words of the specification\<close>

text \<open>
  A stored instance matches a PatientID when it has a PatientID and the two are equal
  once trimmed; the candidate count is the number of stored instances that match.
\<close>

definition matching_patient :: "string \<Rightarrow> dataset \<Rightarrow> bool" where
  "matching_patient q inst = (map_option strip (PatientID inst) = Some (strip q))"

definition candidate_count :: "string \<Rightarrow> dataset list \<Rightarrow> nat" where
  "candidate_count q stored = length (filter (matching_patient q) stored)"

text \<open>Whether \<open>handle_store\<close> gets the payload of a dataset onto the disk.\<close>

definition persisted :: "(string \<Rightarrow> bool) \<Rightarrow> dataset \<Rightarrow> bool" where
  "persisted writable ds =
     (case SOPInstanceUID ds of None \<Rightarrow> False | Some uid \<Rightarrow> writable (uid @ ''.dcm''))"

section \<open>Concrete inputs\<close>

text \<open>Datasets, events and answers of the environment on which the properties are run.\<close>

definition stored_instance :: "string \<Rightarrow> string \<Rightarrow> dataset" where
  "stored_instance pid uid = Dataset\<lparr>PatientID := Some pid, SOPInstanceUID := Some uid\<rparr>"

definition request :: "string \<Rightarrow> string \<Rightarrow> dataset" where
  "request level pid = Dataset\<lparr>QueryRetrieveLevel := Some level, PatientID := Some pid\<rparr>"

definition move_to :: "string \<Rightarrow> dataset \<Rightarrow> move_event" where
  "move_to dest ds = \<lparr>event_identifier = ds, move_destination = dest\<rparr>"

definition never_cancelled :: "nat \<Rightarrow> bool" where
  "never_cancelled k = False"

definition cancelled_from :: "nat \<Rightarrow> nat \<Rightarrow> bool" where
  "cancelled_from K k = (K \<le> k)"

definition accepting :: "nat \<Rightarrow> assoc" where
  "accepting k = Established (Some 0x0000)"

definition refusing_first :: "nat \<Rightarrow> assoc" where
  "refusing_first k = (if k = 0 then NotEstablished else Established (Some 0x0000))"



definition read_only :: "string \<Rightarrow> bool" where
  "read_only fname = False"

definition writable_disk :: "string \<Rightarrow> bool" where
  "writable_disk fname = True"

definition empty_pacs :: pacs_state where
  "empty_pacs = \<lparr>stored_datasets = [], saved_files = []\<rparr>"

text \<open>
  A landing folder polled every half second: one item is there from the start, a second
  one arrives after one second, and a file that is no image lies beside them. And a
  folder that never appears.
\<close>

definition landing_obs :: "nat \<Rightarrow> observation" where
  "landing_obs k =
     \<lparr>elapsed = real k / 2,
      listing = Some (if k < 2 then [''1.1.dcm'', ''notes.txt'']
                      else [''1.1.dcm'', ''notes.txt'', ''1.2.dcm''])\<rparr>"

definition missing_obs :: "nat \<Rightarrow> observation" where
  "missing_obs k = \<lparr>elapsed = real k / 2, listing = None\<rparr>"

section \<open>Properties of the retrieve orchestrator\<close>

lemma yields_after:
  "yields (after steps r) =
     concat (map (\<lambda>s. case s of Yield y \<Rightarrow> [y] | Call e \<Rightarrow> []) steps) @ yields r"
  by (simp add: after_def yields_def)

lemma effects_after:
  "effects (after steps r) =
     concat (map (\<lambda>s. case s of Yield y \<Rightarrow> [] | Call e \<Rightarrow> [e]) steps) @ effects r"
  by (simp add: after_def effects_def)

lemma ending_after: "ending (after steps r) = ending r"
  by (simp add: after_def)

lemmas run_simps =
  yields_after effects_after ending_after opened_sessions_def sent_instances_def item_outcome_def

lemma send_loop_cancelled_after:
  assumes "K < length cands"
    and "\<forall>i<K. \<not> is_cancelled T (k0 + i)"
    and "is_cancelled T (k0 + K)"
    and "\<forall>inst\<in>set (take K cands). SOPInstanceUID inst \<noteq> None"
  shows "yields (send_loop T addr port dest k0 cands) =
           map (\<lambda>k. item_outcome (associate T k)) [k0..<k0 + K] @ [Status 0xFE00 None]
         \<and> ending (send_loop T addr port dest k0 cands) = Returned
         \<and> opened_sessions (send_loop T addr port dest k0 cands) =
             map (\<lambda>inst. Associate addr port dest (storage_contexts inst)) (take K cands)
         \<and> sent_instances (send_loop T addr port dest k0 cands) =
             map fst (filter (\<lambda>(inst, k). associate T k \<noteq> NotEstablished) (zip (take K cands) [k0..<k0 + K]))"
  using assms
proof (induction cands arbitrary: k0 K)
  case Nil
  then show ?case by (simp add: yields_def effects_def opened_sessions_def sent_instances_def)
next
  case (Cons inst rest)
  show ?case
  proof (cases K)
    case 0
    with Cons.prems show ?thesis by (simp add: yields_def effects_def opened_sessions_def sent_instances_def)
  next
    case (Suc K')
    have nc: "\<not> is_cancelled T k0" using Cons.prems(2) Suc by force
    have uid: "SOPInstanceUID inst \<noteq> None" using Cons.prems(4) Suc by simp
    have IH: "yields (send_loop T addr port dest (Suc k0) rest) =
           map (\<lambda>k. item_outcome (associate T k)) [Suc k0..<Suc k0 + K'] @ [Status 0xFE00 None]
         \<and> ending (send_loop T addr port dest (Suc k0) rest) = Returned
         \<and> opened_sessions (send_loop T addr port dest (Suc k0) rest) =
             map (\<lambda>inst. Associate addr port dest (storage_contexts inst)) (take K' rest)
         \<and> sent_instances (send_loop T addr port dest (Suc k0) rest) =
             map fst (filter (\<lambda>(inst, k). associate T k \<noteq> NotEstablished) (zip (take K' rest) [Suc k0..<Suc k0 + K']))"
    proof (rule Cons.IH)
      show "K' < length rest" using Cons.prems(1) Suc by simp
      show "\<forall>i<K'. \<not> is_cancelled T (Suc k0 + i)"
      proof (intro allI impI)
        fix i assume "i < K'"
        then have "Suc i < K" using Suc by simp
        then have "\<not> is_cancelled T (k0 + Suc i)" using Cons.prems(2) by blast
        then show "\<not> is_cancelled T (Suc k0 + i)" by simp
      qed
      show "is_cancelled T (Suc k0 + K')" using Cons.prems(3) Suc by simp
      show "\<forall>inst\<in>set (take K' rest). SOPInstanceUID inst \<noteq> None"
        using Cons.prems(4) Suc by simp
    qed
    have upt: "[k0..<k0 + K] = k0 # [Suc k0..<Suc k0 + K']"
      using Suc by (simp add: upt_conv_Cons)
    from uid obtain u where u: "SOPInstanceUID inst = Some u" by auto
    show ?thesis
    proof (cases "associate T k0")
      case NotEstablished
      then show ?thesis using nc IH upt Suc
        by (simp add: run_simps)
    next
      case (Established status)
      then show ?thesis using nc IH upt Suc u
        by (simp add: run_simps)
    qed
  qed
qed

lemma send_loop_completes:
  assumes "\<forall>i<length cands. \<not> is_cancelled T (k0 + i)"
    and "\<forall>inst\<in>set cands. SOPInstanceUID inst \<noteq> None"
  shows "yields (send_loop T addr port dest k0 cands) =
           map (\<lambda>k. item_outcome (associate T k)) [k0..<k0 + length cands]
         \<and> ending (send_loop T addr port dest k0 cands) = Returned
         \<and> opened_sessions (send_loop T addr port dest k0 cands) =
             map (\<lambda>inst. Associate addr port dest (storage_contexts inst)) cands
         \<and> sent_instances (send_loop T addr port dest k0 cands) =
             map fst (filter (\<lambda>(inst, k). associate T k \<noteq> NotEstablished)
               (zip cands [k0..<k0 + length cands]))"
  using assms
proof (induction cands arbitrary: k0)
  case Nil
  then show ?case by (simp add: yields_def effects_def opened_sessions_def sent_instances_def)
next
  case (Cons inst rest)
  have nc: "\<not> is_cancelled T k0" using Cons.prems(1) by force
  from Cons.prems(2) obtain u where u: "SOPInstanceUID inst = Some u" by auto
  have IH: "yields (send_loop T addr port dest (Suc k0) rest) =
           map (\<lambda>k. item_outcome (associate T k)) [Suc k0..<Suc k0 + length rest]
         \<and> ending (send_loop T addr port dest (Suc k0) rest) = Returned
         \<and> opened_sessions (send_loop T addr port dest (Suc k0) rest) =
             map (\<lambda>inst. Associate addr port dest (storage_contexts inst)) rest
         \<and> sent_instances (send_loop T addr port dest (Suc k0) rest) =
             map fst (filter (\<lambda>(inst, k). associate T k \<noteq> NotEstablished)
               (zip rest [Suc k0..<Suc k0 + length rest]))"
  proof (rule Cons.IH)
    show "\<forall>i<length rest. \<not> is_cancelled T (Suc k0 + i)"
    proof (intro allI impI)
      fix i assume "i < length rest"
      then have "Suc i < length (inst # rest)" by simp
      then have "\<not> is_cancelled T (k0 + Suc i)" using Cons.prems(1) by blast
      then show "\<not> is_cancelled T (Suc k0 + i)" by simp
    qed
    show "\<forall>inst\<in>set rest. SOPInstanceUID inst \<noteq> None" using Cons.prems(2) by simp
  qed
  have upt: "[k0..<k0 + length (inst # rest)] = k0 # [Suc k0..<Suc k0 + length rest]"
    by (simp add: upt_conv_Cons del: upt_Suc)
  show ?case
  proof (cases "associate T k0")
    case NotEstablished
    then show ?thesis using nc IH upt
      by (simp add: run_simps)
  next
    case (Established status)
    then show ?thesis using nc IH upt u
      by (simp add: run_simps)
  qed
qed

lemma filter_zip_all:
  assumes "length xs = length ks" and "\<forall>k\<in>set ks. P k"
  shows "map fst (filter (\<lambda>(x, k). P k) (zip xs ks)) = xs"
  using assms by (induction xs ks rule: list_induct2) auto

lemma strip_examples:
  "strip ''123'' = ''123''" "strip ''123 '' = ''123''" "strip ''456'' = ''456''"
  by (simp_all add: strip_def isspace_def)

lemma to_send_patient:
  "to_send stored ds ''PATIENT'' =
     (case PatientID ds of None \<Rightarrow> [] | Some q \<Rightarrow> filter (matching_patient q) stored)"
proof -
  have "(\<lambda>inst. case PatientID inst of None \<Rightarrow> False | Some pid \<Rightarrow> strip pid = strip q)
          = matching_patient q" for q
    by (rule ext) (simp add: matching_patient_def split: option.splits)
  then show ?thesis by (simp add: to_send_def split: option.splits)
qed

text \<open>
  Claim C6. A move whose destination identifier is not in the static registry yields
  exactly one pair with status \<open>0xA801\<close> and returns; no candidate is selected, no count
  is yielded and the transport is never called.
\<close>

theorem move_unknown_destination:
  assumes "map_of KNOWN_AE_DESTINATIONS (move_destination event) = None"
  shows "handle_move T contexts stored event =
           \<lparr>trace = [Yield (Status 0xA801 None)], ending = Returned\<rparr>"
  using assms by (simp add: handle_move_def)

text \<open>The destination \<open>NOWHERE\<close> is not in the registry.\<close>

theorem move_unknown_destination_witness:
  "map_of KNOWN_AE_DESTINATIONS (move_destination (move_to ''NOWHERE'' (request ''PATIENT'' ''123''))) = None
   \<and> handle_move \<lparr>is_cancelled = never_cancelled, associate = accepting\<rparr> []
         [stored_instance ''123'' ''1.2.3'']
         (move_to ''NOWHERE'' (request ''PATIENT'' ''123'')) =
       \<lparr>trace = [Yield (Status 0xA801 None)], ending = Returned\<rparr>"
proof -
  have h: "map_of KNOWN_AE_DESTINATIONS
             (move_destination (move_to ''NOWHERE'' (request ''PATIENT'' ''123''))) = None"
    by (simp add: KNOWN_AE_DESTINATIONS_def move_to_def)
  show ?thesis using h move_unknown_destination [OF h] by simp
qed

text \<open>
  Claim C4. When \<open>event.is_cancelled\<close> is first read true at the top of iteration \<open>K\<close>,
  with \<open>K\<close> below the number \<open>N\<close> of candidates, the move yields the destination and the
  count, then one outcome for each of the first \<open>K\<close> candidates, then one pair with
  status \<open>0xFE00\<close>, and returns; a session was opened for the first \<open>K\<close> candidates
  and for no other.
\<close>

theorem move_cancelled_after_K:
  assumes known: "map_of KNOWN_AE_DESTINATIONS (move_destination event) = Some (addr, port)"
    and level: "QueryRetrieveLevel (event_identifier event) = Some level"
    and cands: "cands = to_send stored (event_identifier event) level"
    and K: "K < length cands"
    and before: "\<forall>k<K. \<not> is_cancelled T k"
    and at: "is_cancelled T K"
    and uids: "\<forall>inst\<in>set (take K cands). SOPInstanceUID inst \<noteq> None"
  shows "yields (handle_move T contexts stored event) =
           [Destination addr port (move_destination event)
              ([CTImageStorage, MRImageStorage, ComputedRadiographyImageStorage] @ take 50 contexts),
            Count (length cands)]
           @ map (\<lambda>k. item_outcome (associate T k)) [0..<K]
           @ [Status 0xFE00 None]
         \<and> opened_sessions (handle_move T contexts stored event) =
             map (\<lambda>inst. Associate addr port (move_destination event) (storage_contexts inst))
               (take K cands)
         \<and> ending (handle_move T contexts stored event) = Returned"
proof -
  have loop:
    "yields (send_loop T addr port (move_destination event) 0 cands) =
       map (\<lambda>k. item_outcome (associate T k)) [0..<0 + K] @ [Status 0xFE00 None]
     \<and> ending (send_loop T addr port (move_destination event) 0 cands) = Returned
     \<and> opened_sessions (send_loop T addr port (move_destination event) 0 cands) =
         map (\<lambda>inst. Associate addr port (move_destination event) (storage_contexts inst))
           (take K cands)"
    using send_loop_cancelled_after [of K cands T 0 addr port "move_destination event"]
      K before at uids by simp
  have run: "handle_move T contexts stored event =
      after [Yield (Destination addr port (move_destination event)
               ([CTImageStorage, MRImageStorage, ComputedRadiographyImageStorage] @ take 50 contexts)),
             Yield (Count (length cands))]
        (send_loop T addr port (move_destination event) 0 cands)"
    using known level cands by (simp add: handle_move_def Let_def)
  show ?thesis
    unfolding run using loop by (simp add: yields_after effects_after ending_after opened_sessions_def)
qed

text \<open>Three candidates, cancellation read true from the second iteration on.\<close>

theorem move_cancelled_after_K_witness:
  "yields (handle_move \<lparr>is_cancelled = cancelled_from 1, associate = accepting\<rparr> []
      [stored_instance ''123'' ''1.1'', stored_instance ''123 '' ''1.2'',
       stored_instance ''123'' ''1.3'']
      (move_to ''TESTSCU'' (request ''PATIENT'' ''123''))) =
     [Destination ''127.0.0.1'' 11113 ''TESTSCU''
        [CTImageStorage, MRImageStorage, ComputedRadiographyImageStorage],
      Count 3, Status 0xFF00 None, Status 0xFE00 None]
   \<and> opened_sessions (handle_move \<lparr>is_cancelled = cancelled_from 1, associate = accepting\<rparr> []
      [stored_instance ''123'' ''1.1'', stored_instance ''123 '' ''1.2'',
       stored_instance ''123'' ''1.3'']
      (move_to ''TESTSCU'' (request ''PATIENT'' ''123''))) =
     [Associate ''127.0.0.1'' 11113 ''TESTSCU''
        [CTImageStorage, MRImageStorage, ComputedRadiographyImageStorage]]"
proof -
  let ?T = "\<lparr>is_cancelled = cancelled_from 1, associate = accepting\<rparr>"
  let ?stored = "[stored_instance ''123'' ''1.1'', stored_instance ''123 '' ''1.2'',
       stored_instance ''123'' ''1.3'']"
  let ?event = "move_to ''TESTSCU'' (request ''PATIENT'' ''123'')"
  have known: "map_of KNOWN_AE_DESTINATIONS (move_destination ?event) = Some (''127.0.0.1'', 11113)"
    by (simp add: KNOWN_AE_DESTINATIONS_def move_to_def)
  have level: "QueryRetrieveLevel (event_identifier ?event) = Some ''PATIENT''"
    by (simp add: move_to_def request_def Dataset_def)
  have cands: "?stored = to_send ?stored (event_identifier ?event) ''PATIENT''"
    by (simp add: to_send_patient matching_patient_def move_to_def request_def
        stored_instance_def Dataset_def strip_examples)
  have K: "1 < length ?stored" by simp
  have before: "\<forall>k<1. \<not> is_cancelled ?T k" by (simp add: cancelled_from_def)
  have at: "is_cancelled ?T 1" by (simp add: cancelled_from_def)
  have uids: "\<forall>inst\<in>set (take 1 ?stored). SOPInstanceUID inst \<noteq> None"
    by (simp add: stored_instance_def Dataset_def)
  show ?thesis
    using move_cancelled_after_K [OF known level cands K before at uids, of "[]"]
    by (simp add: item_outcome_def accepting_def move_to_def stored_instance_def
        storage_contexts_def Dataset_def)
qed

lemma replicate_outcomes:
  assumes "\<forall>k<n. associate T (k0 + k) = Established (Some 0x0000)"
  shows "map (\<lambda>k. item_outcome (associate T k)) [k0..<k0 + n] = replicate n (Status 0xFF00 None)"
proof -
  have "\<forall>k\<in>set [k0..<k0 + n]. item_outcome (associate T k) = Status 0xFF00 None"
  proof
    fix k assume "k \<in> set [k0..<k0 + n]"
    then have "k0 \<le> k" "k - k0 < n" by auto
    then have "associate T (k0 + (k - k0)) = Established (Some 0x0000)" using assms by blast
    then show "item_outcome (associate T k) = Status 0xFF00 None"
      using \<open>k0 \<le> k\<close> by (simp add: item_outcome_def)
  qed
  then have "map (\<lambda>k. item_outcome (associate T k)) [k0..<k0 + n]
               = map (\<lambda>k. Status 0xFF00 None) [k0..<k0 + n]"
    by (intro map_cong) auto
  then show ?thesis by (simp add: map_replicate_const)
qed

text \<open>
  Claim C5, as amended. For a PATIENT-level move that carries a PatientID, to a known
  destination: the first two steps of the run yield the resolved destination and
  \<open>Count n\<close>, where \<open>n\<close> is the number of stored instances whose trimmed PatientID equals
  the trimmed PatientID of the request, so both come before any call of the transport.
  When none of the \<open>n\<close> iterations reads a cancellation and every association is
  established and answers \<open>0x0000\<close>, the run yields \<open>n\<close> pairs with status \<open>0xFF00\<close> after
  them and nothing else, and sends the matching instances in repository order; for
  \<open>n = 0\<close> that is no pair at all.
\<close>

theorem move_count_then_transfers:
  assumes known: "map_of KNOWN_AE_DESTINATIONS (move_destination event) = Some (addr, port)"
    and level: "QueryRetrieveLevel (event_identifier event) = Some ''PATIENT''"
    and pid: "PatientID (event_identifier event) = Some q"
    and n: "n = candidate_count q stored"
    and resolved: "resolved = Destination addr port (move_destination event)
          ([CTImageStorage, MRImageStorage, ComputedRadiographyImageStorage] @ take 50 contexts)"
  shows "(\<exists>rest. trace (handle_move T contexts stored event) =
                    Yield resolved # Yield (Count n) # rest)
       \<and> ((\<forall>k<n. \<not> is_cancelled T k \<and> associate T k = Established (Some 0x0000))
            \<and> (\<forall>inst\<in>set (filter (matching_patient q) stored). SOPInstanceUID inst \<noteq> None)
           \<longrightarrow> yields (handle_move T contexts stored event) =
                 [resolved, Count n] @ replicate n (Status 0xFF00 None)
               \<and> sent_instances (handle_move T contexts stored event) =
                 filter (matching_patient q) stored
               \<and> ending (handle_move T contexts stored event) = Returned)"
proof -
  let ?cands = "filter (matching_patient q) stored"
  have len: "length ?cands = n" using n by (simp add: candidate_count_def)
  have run: "handle_move T contexts stored event =
      after [Yield resolved, Yield (Count n)]
        (send_loop T addr port (move_destination event) 0 ?cands)"
    using known level pid resolved len by (simp add: handle_move_def Let_def to_send_patient)
  have first: "\<exists>rest. trace (handle_move T contexts stored event) =
                    Yield resolved # Yield (Count n) # rest"
    unfolding run by (simp add: after_def)
  have second: "yields (handle_move T contexts stored event) =
                 [resolved, Count n] @ replicate n (Status 0xFF00 None)
               \<and> sent_instances (handle_move T contexts stored event) = ?cands
               \<and> ending (handle_move T contexts stored event) = Returned"
    if ok: "\<forall>k<n. \<not> is_cancelled T k \<and> associate T k = Established (Some 0x0000)"
      and uids: "\<forall>inst\<in>set ?cands. SOPInstanceUID inst \<noteq> None"
  proof -
    have nc: "\<forall>i<length ?cands. \<not> is_cancelled T (0 + i)" using ok len by simp
    note loop = send_loop_completes [OF nc uids, of addr port "move_destination event"]
    have acc: "\<forall>k<n. associate T (0 + k) = Established (Some 0x0000)" using ok by simp
    have outs: "map (\<lambda>k. item_outcome (associate T k)) [0..<0 + length ?cands]
                  = replicate n (Status 0xFF00 None)"
      using replicate_outcomes [OF acc] len by simp
    have est: "\<forall>k\<in>set [0..<0 + length ?cands]. associate T k \<noteq> NotEstablished"
      using ok len by simp
    have sent: "map fst (filter (\<lambda>(inst, k). associate T k \<noteq> NotEstablished)
                  (zip ?cands [0..<0 + length ?cands])) = ?cands"
      by (rule filter_zip_all [OF _ est]) simp
    have y: "yields (send_loop T addr port (move_destination event) 0 ?cands)
               = replicate n (Status 0xFF00 None)"
      using loop outs by simp
    have s: "sent_instances (send_loop T addr port (move_destination event) 0 ?cands) = ?cands"
      using loop sent by simp
    have e: "ending (send_loop T addr port (move_destination event) 0 ?cands) = Returned"
      using loop by simp
    show ?thesis
      unfolding run using y e s
      by (simp add: yields_after ending_after sent_instances_def effects_after)
  qed
  show ?thesis using first second by blast
qed

text \<open>
  Three stored instances, two of which match \<open>123\<close> once trimmed.
\<close>

theorem move_count_then_transfers_witness:
  "candidate_count ''123''
     [stored_instance ''123'' ''1.1'', stored_instance ''456'' ''1.2'',
      stored_instance ''123 '' ''1.3''] = 2
   \<and> yields (handle_move \<lparr>is_cancelled = never_cancelled, associate = accepting\<rparr> []
      [stored_instance ''123'' ''1.1'', stored_instance ''456'' ''1.2'',
       stored_instance ''123 '' ''1.3'']
      (move_to ''TESTSCU'' (request ''PATIENT'' ''123''))) =
     [Destination ''127.0.0.1'' 11113 ''TESTSCU''
        [CTImageStorage, MRImageStorage, ComputedRadiographyImageStorage],
      Count 2, Status 0xFF00 None, Status 0xFF00 None]
   \<and> sent_instances (handle_move \<lparr>is_cancelled = never_cancelled, associate = accepting\<rparr> []
      [stored_instance ''123'' ''1.1'', stored_instance ''456'' ''1.2'',
       stored_instance ''123 '' ''1.3'']
      (move_to ''TESTSCU'' (request ''PATIENT'' ''123''))) =
     [stored_instance ''123'' ''1.1'', stored_instance ''123 '' ''1.3'']"
proof -
  let ?T = "\<lparr>is_cancelled = never_cancelled, associate = accepting\<rparr>"
  let ?stored = "[stored_instance ''123'' ''1.1'', stored_instance ''456'' ''1.2'',
       stored_instance ''123 '' ''1.3'']"
  let ?event = "move_to ''TESTSCU'' (request ''PATIENT'' ''123'')"
  have known: "map_of KNOWN_AE_DESTINATIONS (move_destination ?event) = Some (''127.0.0.1'', 11113)"
    by (simp add: KNOWN_AE_DESTINATIONS_def move_to_def)
  have level: "QueryRetrieveLevel (event_identifier ?event) = Some ''PATIENT''"
    by (simp add: move_to_def request_def Dataset_def)
  have pid: "PatientID (event_identifier ?event) = Some ''123''"
    by (simp add: move_to_def request_def Dataset_def)
  have cands: "filter (matching_patient ''123'') ?stored =
                 [stored_instance ''123'' ''1.1'', stored_instance ''123 '' ''1.3'']"
    by (simp add: matching_patient_def stored_instance_def Dataset_def strip_examples)
  have n: "2 = candidate_count ''123'' ?stored"
    unfolding candidate_count_def cands by simp
  have ok: "\<forall>k<2. \<not> is_cancelled ?T k \<and> associate ?T k = Established (Some 0x0000)"
    by (simp add: never_cancelled_def accepting_def)
  have uids: "\<forall>inst\<in>set (filter (matching_patient ''123'') ?stored). SOPInstanceUID inst \<noteq> None"
    unfolding cands by (simp add: stored_instance_def Dataset_def)
  show ?thesis
    using move_count_then_transfers [OF known level pid n refl, of ?T "[]"] ok uids n cands
    by (simp add: move_to_def numeral_2_eq_2)
qed

text \<open>
  Claim C5 as stated fails for a request of another level: the guard
  \<open>level == "PATIENT"\<close> leaves \<open>to_send\<close> empty, and the count is 0 although one stored
  instance has the PatientID of the request.
\<close>

theorem move_count_other_level_counterexample:
  "candidate_count ''123'' [stored_instance ''123'' ''1.1''] = 1
   \<and> yields (handle_move \<lparr>is_cancelled = never_cancelled, associate = accepting\<rparr> []
        [stored_instance ''123'' ''1.1'']
        (move_to ''TESTSCU'' (request ''STUDY'' ''123''))) =
      [Destination ''127.0.0.1'' 11113 ''TESTSCU''
         [CTImageStorage, MRImageStorage, ComputedRadiographyImageStorage],
       Count 0]"
  by (simp add: candidate_count_def matching_patient_def stored_instance_def Dataset_def
      handle_move_def KNOWN_AE_DESTINATIONS_def move_to_def request_def to_send_def
      yields_def after_def)

text \<open>
  The generator itself has no \<open>return\<close> after the pair with status \<open>0xA801\<close>. With two
  candidates and the first association not established, a run in which the generator is
  asked for every value goes on after that pair: it opens a session for the second
  candidate, sends it and yields \<open>0xFF00\<close>.
\<close>

lemma move_goes_on_when_resumed:
  "trace (handle_move \<lparr>is_cancelled = never_cancelled, associate = refusing_first\<rparr> []
      [stored_instance ''123'' ''1.1'', stored_instance ''123'' ''1.2'']
      (move_to ''TESTSCU'' (request ''PATIENT'' ''123''))) =
     [Yield (Destination ''127.0.0.1'' 11113 ''TESTSCU''
        [CTImageStorage, MRImageStorage, ComputedRadiographyImageStorage]),
      Yield (Count 2),
      Call (Associate ''127.0.0.1'' 11113 ''TESTSCU''
        [CTImageStorage, MRImageStorage, ComputedRadiographyImageStorage]),
      Yield (Status 0xA801 None),
      Call (Associate ''127.0.0.1'' 11113 ''TESTSCU''
        [CTImageStorage, MRImageStorage, ComputedRadiographyImageStorage]),
      Call (SendCStore (stored_instance ''123'' ''1.2'')),
      Call Release,
      Yield (Status 0xFF00 None)]"
  by (simp add: handle_move_def KNOWN_AE_DESTINATIONS_def move_to_def request_def
      to_send_def stored_instance_def Dataset_def strip_examples after_def
      never_cancelled_def refusing_first_def storage_contexts_def Let_def numeral_2_eq_2)







section \<open>Properties of the query matcher\<close>

lemma find_matches_pids:
  "distinct (map PatientID (find_matches q seen stored))
   \<and> set (map PatientID (find_matches q seen stored)) =
       Some ` ({pid. strip pid = strip q \<and> (\<exists>inst\<in>set stored. PatientID inst = Some pid)} - seen)"
proof (induction stored arbitrary: seen)
  case Nil
  then show ?case by simp
next
  case (Cons inst rest)
  show ?case
  proof (cases "PatientID inst")
    case None
    then show ?thesis using Cons.IH [of seen] by auto
  next
    case (Some pid)
    show ?thesis
    proof (cases "strip pid = strip q \<and> pid \<notin> seen")
      case True
      then show ?thesis using Some Cons.IH [of "insert pid seen"]
        by (auto simp: Dataset_def)
    next
      case False
      then show ?thesis using Some Cons.IH [of seen] by auto
    qed
  qed
qed

lemma emit_matches_not_cancelled:
  "\<forall>i<length ms. \<not> cancelled (k + i) \<Longrightarrow>
     emit_matches cancelled k ms = map (\<lambda>m. (0xFF00, Some m)) ms"
proof (induction ms arbitrary: k)
  case Nil
  then show ?case by simp
next
  case (Cons m ms)
  have "\<not> cancelled k" using Cons.prems by force
  moreover have "\<forall>i<length ms. \<not> cancelled (Suc k + i)"
  proof (intro allI impI)
    fix i assume "i < length ms"
    then have "\<not> cancelled (k + Suc i)" using Cons.prems by auto
    then show "\<not> cancelled (Suc k + i)" by simp
  qed
  ultimately show ?case using Cons.IH [of "Suc k"] by simp
qed

lemma match_results_pending: "match_results (map (\<lambda>m. (s, Some m)) ms) = ms"
  by (induction ms) (simp_all add: match_results_def)

text \<open>
  What the deduplication of \<open>handle_find\<close> does: a find that is not cancelled yields one
  match result for each distinct PatientID string among the matching instances.
\<close>

lemma find_one_result_per_patient_id_string:
  assumes "QueryRetrieveLevel ds = Some ''PATIENT''" and "PatientID ds = Some q" and "q \<noteq> []"
    and "\<forall>k. \<not> cancelled k"
  shows "length (match_results (fst (handle_find cancelled stored ds))) =
           card {pid. strip pid = strip q \<and> (\<exists>inst\<in>set stored. PatientID inst = Some pid)}"
proof -
  let ?ms = "find_matches q {} stored"
  have "fst (handle_find cancelled stored ds) = map (\<lambda>m. (0xFF00, Some m)) ?ms"
    using assms by (simp add: handle_find_def emit_matches_not_cancelled)
  then have "length (match_results (fst (handle_find cancelled stored ds))) = length ?ms"
    by (simp add: match_results_pending)
  also have "\<dots> = length (map PatientID ?ms)" by simp
  also have "\<dots> = card (set (map PatientID ?ms))"
    using find_matches_pids [of q "{}" stored] distinct_card [of "map PatientID ?ms"]
    by presburger
  also have "\<dots> = card {pid. strip pid = strip q \<and> (\<exists>inst\<in>set stored. PatientID inst = Some pid)}"
    using find_matches_pids [of q "{}" stored] by (simp add: card_image)
  finally show ?thesis .
qed

lemma strip_leading_blank: "strip '' 123'' = ''123''"
  by (simp add: strip_def isspace_def)

text \<open>
  Claim C1 fails on the code. The stored PatientIDs \<open>123\<close> and \<open> 123\<close>, the second with
  a leading blank, are equal once trimmed, and both match the query \<open>123\<close>;
  \<open>patient_ids_seen\<close> holds the untrimmed strings, so the find yields two match results
  for the one patient.
\<close>

theorem find_two_results_for_one_patient:
  "handle_find never_cancelled
     [stored_instance ''123'' ''1.1'', stored_instance '' 123'' ''1.2'']
     (request ''PATIENT'' ''123'') =
   ([(0xFF00, Some (Dataset\<lparr>QueryRetrieveLevel := Some ''PATIENT'', PatientID := Some ''123''\<rparr>)),
     (0xFF00, Some (Dataset\<lparr>QueryRetrieveLevel := Some ''PATIENT'', PatientID := Some '' 123''\<rparr>))],
    Returned)"
  by (simp add: handle_find_def request_def stored_instance_def Dataset_def strip_examples
      strip_leading_blank never_cancelled_def)

text \<open>
  Claim C7 as stated fails: with two patients stored, a PATIENT-level query whose
  PatientID is empty yields no match result.
\<close>

theorem find_empty_patient_id_counterexample:
  "match_results (fst (handle_find never_cancelled
       [stored_instance ''123'' ''1.1'', stored_instance ''456'' ''1.2'']
       (request ''PATIENT'' ''''))) = []"
  by (simp add: handle_find_def request_def Dataset_def match_results_def)

text \<open>
  Claim C7, as amended. For a PATIENT-level query in which PatientID is present and
  empty, the find yields nothing and returns, whatever is stored: the guard
  \<open>and ds.PatientID\<close> skips the matching loop.
\<close>

theorem find_empty_patient_id:
  assumes "QueryRetrieveLevel ds = Some ''PATIENT''" and "PatientID ds = Some ''''"
  shows "handle_find cancelled stored ds = ([], Returned)"
  using assms by (simp add: handle_find_def)

text \<open>
  The empty query against two stored patients.
\<close>

theorem find_empty_patient_id_witness:
  "QueryRetrieveLevel (request ''PATIENT'' '''') = Some ''PATIENT''
   \<and> PatientID (request ''PATIENT'' '''') = Some ''''
   \<and> handle_find never_cancelled
        [stored_instance ''123'' ''1.1'', stored_instance ''456'' ''1.2'']
        (request ''PATIENT'' '''') = ([], Returned)"
proof -
  have l: "QueryRetrieveLevel (request ''PATIENT'' '''') = Some ''PATIENT''"
    by (simp add: request_def Dataset_def)
  have p: "PatientID (request ''PATIENT'' '''') = Some ''''"
    by (simp add: request_def Dataset_def)
  show ?thesis using l p find_empty_patient_id [OF l p] by simp
qed

section \<open>Properties of the instance repository\<close>

text \<open>
  Claim C3 as stated fails: storing the same instance twice leaves two entries with one
  SOPInstanceUID.
\<close>

theorem store_twice_counterexample:
  "\<not> distinct (map SOPInstanceUID (stored_datasets
       (store_all writable_disk
          [stored_instance ''123'' ''1.1'', stored_instance ''123'' ''1.1''] empty_pacs)))"
  by (simp add: handle_store_def stored_instance_def Dataset_def writable_disk_def empty_pacs_def)

lemma stored_after_handle_store:
  "stored_datasets (snd (handle_store writable ds st)) =
     stored_datasets st @ (if persisted writable ds then [ds] else [])"
  by (simp add: handle_store_def persisted_def split: option.splits)

lemma stored_after_store_all:
  "stored_datasets (store_all writable events st) =
     stored_datasets st @ filter (persisted writable) events"
  by (induction events arbitrary: st) (simp_all add: stored_after_handle_store)

text \<open>
  Claim C3, as amended. \<open>handle_store\<close> appends every instance whose payload it persisted,
  whether or not its SOPInstanceUID is already present. After any sequence of store events
  the repository is the initial list followed by the persisted instances in arrival order,
  so no two entries share a SOPInstanceUID exactly when neither the initial list nor the
  persisted instances have a duplicate and no persisted instance repeats an initial one.
\<close>

theorem store_appends_every_persisted:
  "stored_datasets (snd (handle_store writable ds st)) =
     stored_datasets st @ (if persisted writable ds then [ds] else [])
   \<and> stored_datasets (store_all writable events st) =
       stored_datasets st @ filter (persisted writable) events
   \<and> distinct (map SOPInstanceUID (stored_datasets (store_all writable events st))) =
       (distinct (map SOPInstanceUID (stored_datasets st))
        \<and> distinct (map SOPInstanceUID (filter (persisted writable) events))
        \<and> SOPInstanceUID ` set (stored_datasets st)
            \<inter> SOPInstanceUID ` set (filter (persisted writable) events) = {})"
  by (simp add: stored_after_handle_store stored_after_store_all)

text \<open>
  Claim C8 as stated fails: when the payload cannot be written, \<open>handle_store\<close> returns no
  status at all; the exception of \<open>save_as\<close> leaves it.
\<close>

theorem store_failure_counterexample:
  "handle_store read_only (stored_instance ''123'' ''1.1'') empty_pacs = (Inl OSError, empty_pacs)"
  by (simp add: handle_store_def stored_instance_def Dataset_def read_only_def)

text \<open>
  Claim C8, as amended. When persisting the payload fails, \<open>handle_store\<close> raises the
  error to its caller, returns no status and leaves the repository as it was; whenever it
  returns a status, the status is \<open>0x0000\<close> and the payload was persisted.
\<close>

theorem store_failure_raises:
  "(SOPInstanceUID ds = Some uid \<and> \<not> writable (uid @ ''.dcm'')
      \<longrightarrow> handle_store writable ds st = (Inl OSError, st))
   \<and> (fst (handle_store writable ds st) = Inr status
      \<longrightarrow> status = 0x0000 \<and> persisted writable ds)"
  by (auto simp: handle_store_def persisted_def Let_def split: option.splits if_splits)

text \<open>
  One store on a disk that refuses the write and one on a disk that accepts it.
\<close>

theorem store_failure_raises_witness:
  "handle_store read_only (stored_instance ''123'' ''1.1'') empty_pacs = (Inl OSError, empty_pacs)
   \<and> fst (handle_store writable_disk (stored_instance ''123'' ''1.1'') empty_pacs) = Inr 0x0000
   \<and> persisted writable_disk (stored_instance ''123'' ''1.1'')"
proof -
  have u: "SOPInstanceUID (stored_instance ''123'' ''1.1'') = Some ''1.1''"
    by (simp add: stored_instance_def Dataset_def)
  have r: "\<not> read_only (''1.1'' @ ''.dcm'')" by (simp add: read_only_def)
  have s: "fst (handle_store writable_disk (stored_instance ''123'' ''1.1'') empty_pacs) = Inr 0x0000"
    by (simp add: handle_store_def stored_instance_def Dataset_def writable_disk_def)
  show ?thesis
    using store_failure_raises [of "stored_instance ''123'' ''1.1''" "''1.1''" read_only empty_pacs 0]
      store_failure_raises [of "stored_instance ''123'' ''1.1''" "''1.1''" writable_disk empty_pacs 0]
      u r s
    by simp
qed

section \<open>Properties of the completion detector\<close>

lemma state_at_0:
  "state_at obs 0 = \<lparr>stable_count = 0, previous_count = - 1, current_files = []\<rparr>"
  by (simp add: state_at_def last_seen_def)

lemma state_at_missing:
  "listing (obs k) = None \<Longrightarrow> state_at obs (Suc k) = state_at obs k"
  by (simp add: state_at_def last_seen_def)

lemma state_at_poll:
  "listing (obs k) = Some names \<Longrightarrow> poll names (state_at obs k) = state_at obs (Suc k)"
  by (cases "observed obs k") (simp_all add: state_at_def last_seen_def poll_def Let_def)

text \<open>
  The loop, started at iteration \<open>k\<close> in the state that the observations before \<open>k\<close>
  lead to, returns at the first iteration \<open>j\<close> from \<open>k\<close> on at which one of the two
  conditions holds.
\<close>

lemma wait_loop_stops:
  assumes "k \<le> j"
    and "\<forall>i. k \<le> i \<and> i < j \<longrightarrow> \<not> timed_out obs timeout i \<and> \<not> stable_at obs consecutive i"
    and "timed_out obs timeout j \<or> stable_at obs consecutive j"
  shows "wait_loop obs timeout consecutive k (state_at obs k) =
           Some \<lparr>returned_files =
                    (if timed_out obs timeout j then last_seen obs j else last_seen obs (Suc j)),
                 sleeps = j\<rparr>"
  using assms
proof (induction "j - k" arbitrary: k)
  case 0
  then have kj: "k = j" by simp
  show ?case
  proof (cases "timed_out obs timeout j")
    case True
    then show ?thesis unfolding kj
      by (subst wait_loop.simps) (simp add: timed_out_def state_at_def)
  next
    case False
    then have st: "stable_at obs consecutive j" using "0.prems"(3) by blast
    then obtain names where names: "listing (obs j) = Some names"
      by (auto simp: stable_at_def)
    have "consecutive \<le> stable_count (state_at obs (Suc j))"
      using st by (simp add: stable_at_def state_at_def)
    then show ?thesis unfolding kj using False names
      by (subst wait_loop.simps) (simp add: timed_out_def state_at_poll, simp add: state_at_def)
  qed
next
  case (Suc d)
  then have lt: "k < j" by simp
  have here: "\<not> timed_out obs timeout k" "\<not> stable_at obs consecutive k"
    using Suc.prems(2) lt by auto
  have IH: "wait_loop obs timeout consecutive (Suc k) (state_at obs (Suc k)) =
           Some \<lparr>returned_files =
                    (if timed_out obs timeout j then last_seen obs j else last_seen obs (Suc j)),
                 sleeps = j\<rparr>"
  proof (rule Suc.hyps(1))
    show "d = j - Suc k" using Suc.hyps(2) by simp
    show "Suc k \<le> j" using lt by simp
    show "\<forall>i. Suc k \<le> i \<and> i < j \<longrightarrow> \<not> timed_out obs timeout i \<and> \<not> stable_at obs consecutive i"
      using Suc.prems(2) by auto
    show "timed_out obs timeout j \<or> stable_at obs consecutive j" by (rule Suc.prems(3))
  qed
  show ?case
  proof (cases "listing (obs k)")
    case None
    then show ?thesis using here IH
      by (subst wait_loop.simps) (simp add: timed_out_def state_at_missing)
  next
    case (Some names)
    have "\<not> consecutive \<le> stable_count (state_at obs (Suc k))"
      using here(2) Some by (simp add: stable_at_def state_at_def)
    then show ?thesis using here Some IH
      by (subst wait_loop.simps) (simp add: timed_out_def state_at_poll)
  qed
qed

text \<open>
  Claim C9. Let \<open>j\<close> be the first iteration at which the timeout has elapsed or the item
  count has been unchanged for \<open>consecutive\<close> polls. Then \<open>wait_for_files\<close> returns at
  iteration \<open>j\<close>, after \<open>j\<close> sleeps, and returns the \<open>.dcm\<close> items of the most recent
  listing it has read by then: that of poll \<open>j\<close> when the count is stable, that of the
  last poll before \<open>j\<close> that found the folder when the timeout fires first (nothing if
  there was none).
\<close>

theorem wait_for_files_stops_at_first_condition:
  assumes "\<forall>i<j. \<not> timed_out obs timeout i \<and> \<not> stable_at obs consecutive i"
    and "timed_out obs timeout j \<or> stable_at obs consecutive j"
  shows "wait_for_files obs timeout consecutive =
           Some \<lparr>returned_files =
                    (if timed_out obs timeout j then last_seen obs j else last_seen obs (Suc j)),
                 sleeps = j\<rparr>"
  using wait_loop_stops [of 0 j obs timeout consecutive] assms
  by (simp add: wait_for_files_def state_at_0)

text \<open>
  The call returns as soon as the clock reaches the timeout at some iteration.
\<close>

lemma wait_for_files_returns:
  assumes "timed_out obs timeout k"
  shows "\<exists>r. wait_for_files obs timeout consecutive = Some r"
proof -
  define stop where "stop i = (timed_out obs timeout i \<or> stable_at obs consecutive i)" for i
  define j where "j = (LEAST i. stop i)"
  have "stop k" using assms by (simp add: stop_def)
  then have at: "stop j" unfolding j_def by (rule LeastI)
  have before: "\<not> stop i" if "i < j" for i
    using that unfolding j_def by (rule not_less_Least)
  have "wait_loop obs timeout consecutive 0 (state_at obs 0) =
          Some \<lparr>returned_files =
                   (if timed_out obs timeout j then last_seen obs j else last_seen obs (Suc j)),
                sleeps = j\<rparr>"
  proof (rule wait_loop_stops)
    show "0 \<le> j" by simp
    show "\<forall>i. 0 \<le> i \<and> i < j \<longrightarrow> \<not> timed_out obs timeout i \<and> \<not> stable_at obs consecutive i"
      using before by (simp add: stop_def)
    show "timed_out obs timeout j \<or> stable_at obs consecutive j"
      using at by (simp add: stop_def)
  qed
  then show ?thesis by (simp add: wait_for_files_def state_at_0)
qed

lemma dcm_examples:
  "dcm_files [''1.1.dcm'', ''notes.txt''] = [''1.1.dcm'']"
  "dcm_files [''1.1.dcm'', ''notes.txt'', ''1.2.dcm''] = [''1.1.dcm'', ''1.2.dcm'']"
  by (simp_all add: dcm_files_def endswith_def)

lemma landing_observed:
  "observed landing_obs (Suc 0) = [[''1.1.dcm'']]"
  "observed landing_obs (Suc (Suc 0)) = [[''1.1.dcm''], [''1.1.dcm'']]"
  "observed landing_obs (Suc (Suc (Suc 0))) =
     [[''1.1.dcm'', ''1.2.dcm''], [''1.1.dcm''], [''1.1.dcm'']]"
  "observed landing_obs (Suc (Suc (Suc (Suc 0)))) =
     [[''1.1.dcm'', ''1.2.dcm''], [''1.1.dcm'', ''1.2.dcm''], [''1.1.dcm''], [''1.1.dcm'']]"
  "observed landing_obs (Suc (Suc (Suc (Suc (Suc 0))))) =
     [[''1.1.dcm'', ''1.2.dcm''], [''1.1.dcm'', ''1.2.dcm''], [''1.1.dcm'', ''1.2.dcm''],
      [''1.1.dcm''], [''1.1.dcm'']]"
  by (simp_all add: landing_obs_def dcm_examples)

lemma landing_stable:
  "\<not> stable_at landing_obs 2 0"
  "\<not> stable_at landing_obs 2 (Suc 0)"
  "\<not> stable_at landing_obs 2 (Suc (Suc 0))"
  "\<not> stable_at landing_obs 2 (Suc (Suc (Suc 0)))"
  "stable_at landing_obs 2 (Suc (Suc (Suc (Suc 0))))"
  unfolding stable_at_def landing_observed by (simp_all add: landing_obs_def)

lemma below_4: "i < 4 \<longleftrightarrow> i = 0 \<or> i = Suc 0 \<or> i = Suc (Suc 0) \<or> i = Suc (Suc (Suc 0))"
  by auto

lemma below_2: "i < 2 \<longleftrightarrow> i = 0 \<or> i = Suc 0"
  by auto

text \<open>
  With a timeout of 10 seconds and 2 stable polls required the detector returns at the
  fifth poll, 2 seconds in, with both items; with a timeout of 0.7 seconds it returns at
  the third loop test with the one item seen so far.
\<close>

theorem wait_for_files_stops_at_first_condition_witness:
  "wait_for_files landing_obs 10 2 =
     Some \<lparr>returned_files = [''1.1.dcm'', ''1.2.dcm''], sleeps = 4\<rparr>
   \<and> wait_for_files landing_obs 0.7 2 =
     Some \<lparr>returned_files = [''1.1.dcm''], sleeps = 2\<rparr>"
proof -
  have four: "4 = Suc (Suc (Suc (Suc 0)))" and two: "2 = Suc (Suc 0)" by simp_all
  have a1: "\<forall>i<4. \<not> timed_out landing_obs 10 i \<and> \<not> stable_at landing_obs 2 i"
    unfolding below_4 using landing_stable by (auto simp: timed_out_def landing_obs_def)
  have a2: "timed_out landing_obs 10 4 \<or> stable_at landing_obs 2 4"
    unfolding four using landing_stable by simp
  have a3: "\<not> timed_out landing_obs 10 4" by (simp add: timed_out_def landing_obs_def)
  have b1: "\<forall>i<2. \<not> timed_out landing_obs 0.7 i \<and> \<not> stable_at landing_obs 2 i"
    unfolding below_2 using landing_stable by (auto simp: timed_out_def landing_obs_def)
  have b2: "timed_out landing_obs 0.7 2 \<or> stable_at landing_obs 2 2"
    by (simp add: timed_out_def landing_obs_def)
  have b3: "timed_out landing_obs 0.7 2" by (simp add: timed_out_def landing_obs_def)
  have l5: "last_seen landing_obs (Suc 4) = [''1.1.dcm'', ''1.2.dcm'']"
    unfolding four last_seen_def landing_observed by simp
  have l2: "last_seen landing_obs 2 = [''1.1.dcm'']"
    unfolding two last_seen_def landing_observed by simp
  show ?thesis
    using wait_for_files_stops_at_first_condition [OF a1 a2]
      wait_for_files_stops_at_first_condition [OF b1 b2] a3 b3 l5 l2
    by simp
qed

lemma observed_missing:
  "\<forall>i<j. listing (obs i) = None \<Longrightarrow> observed obs j = []"
  by (induction j) simp_all

text \<open>
  Claim C10. An iteration that finds no folder before the timeout leaves the state of the
  loop, the stability counter in it, as it is. When no iteration before the \<open>j\<close>-th finds
  the folder and the clock reaches the timeout at the \<open>j\<close>-th, the call returns the empty
  list there, after \<open>j\<close> sleeps, and not earlier.
\<close>

theorem wait_for_files_folder_missing:
  "(elapsed (obs k) < timeout \<and> listing (obs k) = None
      \<longrightarrow> wait_loop obs timeout consecutive k s = wait_loop obs timeout consecutive (Suc k) s)
   \<and> ((\<forall>i<j. elapsed (obs i) < timeout \<and> listing (obs i) = None) \<and> timeout \<le> elapsed (obs j)
      \<longrightarrow> wait_for_files obs timeout consecutive = Some \<lparr>returned_files = [], sleeps = j\<rparr>)"
proof (intro conjI impI)
  assume "elapsed (obs k) < timeout \<and> listing (obs k) = None"
  then show "wait_loop obs timeout consecutive k s = wait_loop obs timeout consecutive (Suc k) s"
    by (subst wait_loop.simps) simp
next
  assume h: "(\<forall>i<j. elapsed (obs i) < timeout \<and> listing (obs i) = None) \<and> timeout \<le> elapsed (obs j)"
  have out: "timed_out obs timeout j" using h by (simp add: timed_out_def)
  have "wait_loop obs timeout consecutive 0 (state_at obs 0) =
          Some \<lparr>returned_files =
                   (if timed_out obs timeout j then last_seen obs j else last_seen obs (Suc j)),
                sleeps = j\<rparr>"
  proof (rule wait_loop_stops)
    show "0 \<le> j" by simp
    show "\<forall>i. 0 \<le> i \<and> i < j \<longrightarrow> \<not> timed_out obs timeout i \<and> \<not> stable_at obs consecutive i"
      using h by (auto simp: timed_out_def stable_at_def)
    show "timed_out obs timeout j \<or> stable_at obs consecutive j" using out by simp
  qed
  moreover have "last_seen obs j = []"
    using h by (simp add: last_seen_def observed_missing)
  ultimately show "wait_for_files obs timeout consecutive = Some \<lparr>returned_files = [], sleeps = j\<rparr>"
    using out by (simp add: wait_for_files_def state_at_0)
qed

text \<open>
  A folder that never appears, polled every half second for 10 seconds.
\<close>

theorem wait_for_files_folder_missing_witness:
  "wait_for_files missing_obs 10 2 = Some \<lparr>returned_files = [], sleeps = 20\<rparr>
   \<and> wait_loop missing_obs 10 2 3 \<lparr>stable_count = 1, previous_count = 5, current_files = []\<rparr>
     = wait_loop missing_obs 10 2 (Suc 3) \<lparr>stable_count = 1, previous_count = 5, current_files = []\<rparr>"
proof -
  have a: "\<forall>i<20. elapsed (missing_obs i) < 10 \<and> listing (missing_obs i) = None"
    by (simp add: missing_obs_def)
  have b: "(10::real) \<le> elapsed (missing_obs 20)" by (simp add: missing_obs_def)
  have c: "elapsed (missing_obs 3) < 10 \<and> listing (missing_obs 3) = None"
    by (simp add: missing_obs_def)
  show ?thesis
    using wait_for_files_folder_missing [of missing_obs 3 10 2
        "\<lparr>stable_count = 1, previous_count = 5, current_files = []\<rparr>" 20] a b c
    by simp
qed

end
